theory Spec2Isabelle
  imports Main "HOL-Library.Sublist"
begin

section \<open>Data model (types.ts)\<close>

text \<open>
  The catalog types of \<^verbatim>\<open>types.ts\<close>. JavaScript strings are modelled as \<open>string\<close>,
  arrays as lists, optional fields as \<open>option\<close>. Field names follow the source; a prefix
  tells the records apart where two interfaces share a field name (\<open>cat_\<close> for Category,
  \<open>sub_\<close> for Subcategory, \<open>s_\<close> for ComponentSummary), and \<open>id\<close>, \<open>type\<close>, \<open>includes\<close>
  and \<open>keywords\<close> of ComponentData are written \<open>cid\<close>, \<open>ctype\<close>, \<open>includes_c\<close> and
  \<open>keywords_c\<close>.
\<close>

datatype ComponentType =
  Component | Section | Card | Screen | Layout | Page | Form | Chart | Partial

datatype ColorScheme = Light | Dark | Mixed

datatype LayoutType = FullWidth | Contained | Split

record ContentHints =
  has_images :: bool
  has_icons :: bool
  has_buttons :: bool
  has_form :: bool
  has_carousel :: bool
  has_video :: bool
  color_scheme :: ColorScheme
  layout_type :: LayoutType

record ComponentData =
  cid :: string
  slug :: string
  name :: string
  ctype :: ComponentType
  category :: string
  subcategory :: string
  description :: string
  tags :: "string list"
  keywords_c :: "string list"
  use_cases :: "string list"
  includes_c :: "string list"
  content_hints :: ContentHints
  html :: string
  dependencies :: "string list"
  used_by :: "string list"
  similar_to :: "string list"
  is_free :: bool
  is_published :: bool
  is_featured :: bool
  is_new :: bool
  created_at :: string
  updated_at :: string

record Subcategory =
  sub_name :: string
  sub_slug :: string
  sub_description :: "string option"

record Category =
  cat_slug :: string
  cat_name :: string
  cat_icon :: "string option"
  cat_description :: "string option"
  cat_is_published :: bool
  cat_items :: "Subcategory list"

record ComponentCatalog =
  version :: string
  generated_at :: string
  categories :: "Category list"
  components :: "ComponentData list"

record SearchFilters =
  f_query :: "string option"
  f_type :: "ComponentType option"
  f_category :: "string option"
  f_subcategory :: "string option"
  f_is_free :: "bool option"
  f_is_featured :: "bool option"
  f_limit :: "int option"

record ComponentSummary =
  s_id :: string
  s_name :: string
  s_slug :: string
  s_type :: ComponentType
  s_category :: string
  s_subcategory :: string
  s_description :: string
  s_is_free :: bool
  s_is_featured :: bool
  s_tags :: "string list"

section \<open>The server state and its indexes\<close>

text \<open>
  The fields of class \<^verbatim>\<open>WebPixelsServer\<close> that the operations read: the catalog and the
  three \<^verbatim>\<open>Map\<close> indexes. A JavaScript \<^verbatim>\<open>Map<string, V>\<close> is a partial function from
  strings; \<^verbatim>\<open>set\<close> is a function update, so a later entry with the same key replaces the
  earlier one.
\<close>

record WebPixelsServer =
  catalog :: ComponentCatalog
  componentsBySlug :: "string \<rightharpoonup> ComponentData"
  componentsById :: "string \<rightharpoonup> ComponentData"
  categoriesBySlug :: "string \<rightharpoonup> Category"

text \<open>One iteration of the first loop of \<^verbatim>\<open>indexData\<close>.\<close>

definition indexComponent :: "ComponentData \<Rightarrow> WebPixelsServer \<Rightarrow> WebPixelsServer" where
  "indexComponent c s =
     s\<lparr>componentsBySlug := (componentsBySlug s)(slug c \<mapsto> c),
       componentsById := (componentsById s)(cid c \<mapsto> c)\<rparr>"

text \<open>One iteration of the second loop of \<^verbatim>\<open>indexData\<close>.\<close>

definition indexCategory :: "Category \<Rightarrow> WebPixelsServer \<Rightarrow> WebPixelsServer" where
  "indexCategory cat s =
     s\<lparr>categoriesBySlug := (categoriesBySlug s)(cat_slug cat \<mapsto> cat)\<rparr>"

definition indexData :: "WebPixelsServer \<Rightarrow> WebPixelsServer" where
  "indexData s =
     fold indexCategory (categories (catalog s))
       (fold indexComponent (components (catalog s)) s)"

text \<open>
  The constructor, for a given catalog (the source imports the bundled
  \<^verbatim>\<open>components.json\<close>; here the catalog is the argument): empty maps, then \<^verbatim>\<open>indexData\<close>.
\<close>

definition newServer :: "ComponentCatalog \<Rightarrow> WebPixelsServer" where
  "newServer cat =
     indexData \<lparr>catalog = cat, componentsBySlug = Map.empty,
                componentsById = Map.empty, categoriesBySlug = Map.empty\<rparr>"

text \<open>
  \<^verbatim>\<open>getComponent\<close>: \<^verbatim>\<open>componentsById.get(x) || componentsBySlug.get(x)\<close>. A stored
  component is an object, hence truthy, so \<^verbatim>\<open>||\<close> falls through exactly when the id
  index has no entry.
\<close>

definition getComponent :: "WebPixelsServer \<Rightarrow> string \<Rightarrow> ComponentData option" where
  "getComponent s idOrSlug =
     (case componentsById s idOrSlug of
        Some c \<Rightarrow> Some c
      | None \<Rightarrow> componentsBySlug s idOrSlug)"

section \<open>Query engine\<close>

text \<open>
  A \<open>char\<close> of a model string is one UTF-16 code unit of the JavaScript string, and the
  type has the code units 0 to 255 (the Basic Latin and Latin-1 Supplement blocks):
  strings with other code units are not values of the model.
  \<^verbatim>\<open>String.prototype.toLowerCase\<close> maps each code point to its Unicode lower case; below
  256 the letters with one are \<^verbatim>\<open>A\<close> to \<^verbatim>\<open>Z\<close> (65 to 90) and the Latin-1 capitals 192 to
  222 without the multiplication sign 215, each 32 below its lower case, and no
  context-dependent rule applies.
\<close>

definition toLowerChar :: "char \<Rightarrow> char" where
  "toLowerChar c =
     (let n = (of_char c :: nat) in
      if (65 \<le> n \<and> n \<le> 90) \<or> (192 \<le> n \<and> n \<le> 222 \<and> n \<noteq> 215)
      then char_of (n + 32) else c)"

definition toLowerCase :: "string \<Rightarrow> string" where
  "toLowerCase str = map toLowerChar str"

text \<open>\<^verbatim>\<open>Array.prototype.join\<close> on an array of strings.\<close>

fun join :: "string \<Rightarrow> string list \<Rightarrow> string" where
  "join sep [] = []"
| "join sep [x] = x"
| "join sep (x # y # ys) = x @ sep @ join sep (y # ys)"

text \<open>\<^verbatim>\<open>String.prototype.includes\<close>: the needle occurs at some position of the text.\<close>

fun includes_str :: "string \<Rightarrow> string \<Rightarrow> bool" where
  "includes_str [] needle = (needle = [])"
| "includes_str (x # xs) needle = (prefix needle (x # xs) \<or> includes_str xs needle)"

text \<open>The haystack of the text search (the array literal joined by a space, lower-cased).\<close>

definition searchText :: "ComponentData \<Rightarrow> string" where
  "searchText c =
     toLowerCase (join '' ''
       ([name c, slug c, description c, category c, subcategory c]
          @ tags c @ keywords_c c @ use_cases c))"

text \<open>
  \<^verbatim>\<open>searchComponents\<close>. The guards are JavaScript truthiness tests: \<^verbatim>\<open>if (filters.category)\<close>
  and \<^verbatim>\<open>if (filters.query)\<close> skip the empty string as well as \<^verbatim>\<open>undefined\<close>; the two
  boolean filters test \<^verbatim>\<open>!== undefined\<close>; the limit applies when it is neither
  \<^verbatim>\<open>undefined\<close> nor \<^verbatim>\<open>0\<close> and is positive. The limit is an integer here
  (\<^verbatim>\<open>slice\<close> truncates a fractional one).
\<close>

definition searchComponents :: "WebPixelsServer \<Rightarrow> SearchFilters \<Rightarrow> ComponentData list" where
  "searchComponents s filters =
     (let results = filter is_published (components (catalog s));
          results = (case f_type filters of
                       Some t \<Rightarrow> filter (\<lambda>c. ctype c = t) results
                     | None \<Rightarrow> results);
          results = (case f_category filters of
                       Some cat \<Rightarrow>
                         if cat \<noteq> [] then
                           filter (\<lambda>c. category c = cat \<or> subcategory c = cat) results
                         else results
                     | None \<Rightarrow> results);
          results = (case f_is_free filters of
                       Some b \<Rightarrow> filter (\<lambda>c. is_free c = b) results
                     | None \<Rightarrow> results);
          results = (case f_is_featured filters of
                       Some b \<Rightarrow> filter (\<lambda>c. is_featured c = b) results
                     | None \<Rightarrow> results);
          results = (case f_query filters of
                       Some q \<Rightarrow>
                         if q \<noteq> [] then
                           filter (\<lambda>c. includes_str (searchText c) (toLowerCase q)) results
                         else results
                     | None \<Rightarrow> results);
          results = (case f_limit filters of
                       Some n \<Rightarrow> if n \<noteq> 0 \<and> n > 0 then take (nat n) results else results
                     | None \<Rightarrow> results)
      in results)"

definition formatComponentSummary :: "ComponentData \<Rightarrow> ComponentSummary" where
  "formatComponentSummary c =
     \<lparr>s_id = cid c, s_name = name c, s_slug = slug c, s_type = ctype c,
      s_category = category c, s_subcategory = subcategory c,
      s_description = description c, s_is_free = is_free c,
      s_is_featured = is_featured c, s_tags = tags c\<rparr>"

section \<open>Tool arguments, payloads and results\<close>

text \<open>
  The handlers receive \<^verbatim>\<open>args: Record<string, unknown>\<close> and cast each property they
  read (\<^verbatim>\<open>args.query as string | undefined\<close>, ...). The record below has one optional
  field for every property some handler reads, at the type of its cast; \<open>None\<close> is
  \<^verbatim>\<open>undefined\<close> (the property is absent).
\<close>

record ToolArgs =
  a_query :: "string option"
  a_type :: "ComponentType option"
  a_category :: "string option"
  a_is_free :: "bool option"
  a_limit :: "int option"
  a_id :: "string option"
  a_components :: "string list option"
  a_layout :: "string option"
  a_includeAssets :: "bool option"
  a_direction :: "string option"

text \<open>The object literal serialised by \<^verbatim>\<open>handleGetComponent\<close> and \<^verbatim>\<open>handleComponentResource\<close>.\<close>

record ComponentDetail =
  d_id :: string
  d_name :: string
  d_slug :: string
  d_type :: ComponentType
  d_category :: string
  d_subcategory :: string
  d_description :: string
  d_is_free :: bool
  d_is_featured :: bool
  d_tags :: "string list"
  d_keywords :: "string list"
  d_use_cases :: "string list"
  d_includes :: "string list"
  d_content_hints :: ContentHints
  d_dependencies :: "string list"
  d_used_by :: "string list"
  d_html :: string

record CategoryCount =
  count :: nat
  freeCount :: nat

record CategoryStat =
  st_slug :: string
  st_name :: string
  st_icon :: "string option"
  st_componentCount :: nat
  st_freeCount :: nat
  st_subcategories :: "(string \<times> string) list"

record ComponentIdent =
  i_id :: string
  i_slug :: string
  i_name :: string

record DependencyResult =
  r_component :: ComponentIdent
  r_dependencies :: "ComponentSummary list option"
  r_dependents :: "ComponentSummary list option"

text \<open>
  What a handler puts into the \<^verbatim>\<open>text\<close> of its result: the object given to
  \<^verbatim>\<open>JSON.stringify\<close>, kept as a value, or the raw HTML of \<^verbatim>\<open>assemble_page\<close>.
  \<open>ErrorPayload msg None\<close> is \<^verbatim>\<open>{error: msg}\<close> and \<open>ErrorPayload msg (Some m)\<close> is
  \<^verbatim>\<open>{error: msg, missing: m}\<close>.
\<close>

datatype payload =
    SearchPayload nat "ComponentSummary list"
  | ErrorPayload string "string list option"
  | ComponentPayload ComponentDetail
  | CategoriesPayload "CategoryStat list"
  | DependenciesPayload DependencyResult
  | HtmlText string
  | CatalogPayload nat "ComponentSummary list"
  | CategoryPayload "(string \<times> string \<times> string option) option" nat "ComponentSummary list"

record ToolResult =
  content :: payload
  isError :: bool

record ResourceResult =
  r_uri :: string
  r_mimeType :: string
  r_text :: payload

text \<open>
  What a handler throws; it returns \<open>Inl\<close> of it when it throws. \<open>Error msg\<close> is
  \<^verbatim>\<open>new Error(msg)\<close>. \<open>TypeError prop\<close> is the \<^verbatim>\<open>TypeError\<close> that reading the property
  \<open>prop\<close> of \<^verbatim>\<open>undefined\<close> raises (the wording of its message is the engine's).
\<close>

datatype exception = Error string | TypeError string

section \<open>Tool handlers\<close>

text \<open>
  The filters \<^verbatim>\<open>handleSearchComponents\<close> builds from its arguments. \<^verbatim>\<open>args.limit || 20\<close>
  replaces an absent limit and the limit \<^verbatim>\<open>0\<close> by 20 and keeps every other number. The
  object literal has no \<^verbatim>\<open>subcategory\<close> and no \<^verbatim>\<open>is_featured\<close> property.
\<close>

definition searchFiltersOf :: "ToolArgs \<Rightarrow> SearchFilters" where
  "searchFiltersOf args =
     \<lparr>f_query = a_query args, f_type = a_type args, f_category = a_category args,
      f_subcategory = None, f_is_free = a_is_free args, f_is_featured = None,
      f_limit = (case a_limit args of
                   Some n \<Rightarrow> if n \<noteq> 0 then Some n else Some 20
                 | None \<Rightarrow> Some 20)\<rparr>"

definition handleSearchComponents :: "WebPixelsServer \<Rightarrow> ToolArgs \<Rightarrow> ToolResult" where
  "handleSearchComponents s args =
     (let results = searchComponents s (searchFiltersOf args);
          formatted = map formatComponentSummary results
      in \<lparr>content = SearchPayload (length results) formatted, isError = False\<rparr>)"

definition formatComponentDetail :: "ComponentData \<Rightarrow> ComponentDetail" where
  "formatComponentDetail c =
     \<lparr>d_id = cid c, d_name = name c, d_slug = slug c, d_type = ctype c,
      d_category = category c, d_subcategory = subcategory c,
      d_description = description c, d_is_free = is_free c,
      d_is_featured = is_featured c, d_tags = tags c, d_keywords = keywords_c c,
      d_use_cases = use_cases c, d_includes = includes_c c,
      d_content_hints = content_hints c, d_dependencies = dependencies c,
      d_used_by = used_by c, d_html = html c\<rparr>"

text \<open>
  \<^verbatim>\<open>args.id as string\<close> is \<^verbatim>\<open>undefined\<close> when the property is absent: no \<^verbatim>\<open>Map\<close> of the
  server has that key, and a template literal prints it as \<^verbatim>\<open>undefined\<close>.
\<close>

definition getComponentArg :: "WebPixelsServer \<Rightarrow> string option \<Rightarrow> ComponentData option" where
  "getComponentArg s ido = (case ido of None \<Rightarrow> None | Some i \<Rightarrow> getComponent s i)"

definition showArg :: "string option \<Rightarrow> string" where
  "showArg ido = (case ido of None \<Rightarrow> ''undefined'' | Some i \<Rightarrow> i)"


text \<open>
  One iteration of the counting loop of \<^verbatim>\<open>handleListCategories\<close> over the
  \<^verbatim>\<open>categoryStats\<close> map: an unpublished component is skipped; otherwise the entry of its
  category is created at zero when missing, and its counters are incremented.
\<close>

definition countComponent ::
  "ComponentData \<Rightarrow> (string \<rightharpoonup> CategoryCount) \<Rightarrow> (string \<rightharpoonup> CategoryCount)" where
  "countComponent c stats =
     (if \<not> is_published c then stats
      else
        let key = category c;
            stat = (case stats key of
                      None \<Rightarrow> \<lparr>count = 0, freeCount = 0\<rparr>
                    | Some st \<Rightarrow> st);
            stat = stat\<lparr>count := count stat + 1\<rparr>;
            stat = (if is_free c then stat\<lparr>freeCount := freeCount stat + 1\<rparr> else stat)
        in stats(key \<mapsto> stat))"

definition categoryStats :: "WebPixelsServer \<Rightarrow> (string \<rightharpoonup> CategoryCount)" where
  "categoryStats s = fold countComponent (components (catalog s)) Map.empty"

definition formatCategory :: "(string \<rightharpoonup> CategoryCount) \<Rightarrow> Category \<Rightarrow> CategoryStat" where
  "formatCategory stats cat =
     \<lparr>st_slug = cat_slug cat, st_name = cat_name cat, st_icon = cat_icon cat,
      st_componentCount = (case stats (cat_slug cat) of None \<Rightarrow> 0 | Some st \<Rightarrow> count st),
      st_freeCount = (case stats (cat_slug cat) of None \<Rightarrow> 0 | Some st \<Rightarrow> freeCount st),
      st_subcategories = map (\<lambda>item. (sub_slug item, sub_name item)) (cat_items cat)\<rparr>"

definition listCategories :: "WebPixelsServer \<Rightarrow> CategoryStat list" where
  "listCategories s =
     map (formatCategory (categoryStats s))
       (filter cat_is_published (categories (catalog s)))"

text \<open>
  \<^verbatim>\<open>handleListCategories\<close> never reads its parameter \<^verbatim>\<open>_args\<close>, which is \<^verbatim>\<open>undefined\<close>
  (\<open>None\<close>) when the request has no arguments.
\<close>

definition handleListCategories :: "WebPixelsServer \<Rightarrow> ToolArgs option \<Rightarrow> ToolResult" where
  "handleListCategories s args =
     \<lparr>content = CategoriesPayload (listCategories s), isError = False\<rparr>"

definition newline :: string where
  "newline = [CHR 0x0A]"

text \<open>The lines of the document template before and after \<^verbatim>\<open>${body}\<close>.\<close>

definition documentHead :: "string list" where
  \<open>documentHead =
     [''<!DOCTYPE html>'',
      ''<html lang="en">'',
      ''<head>'',
      ''  <meta charset="UTF-8">'',
      ''  <meta name="viewport" content="width=device-width, initial-scale=1.0">'',
      ''  <title>WebPixels Page</title>'',
      ''  <!-- Bootstrap CSS -->'',
      ''  <link href="https://cdn.jsdelivr.net/npm/bootstrap@5.3.3/dist/css/bootstrap.min.css" rel="stylesheet">'',
      ''  <!-- Bootstrap Icons -->'',
      ''  <link href="https://cdn.jsdelivr.net/npm/bootstrap-icons@1.11.3/font/bootstrap-icons.min.css" rel="stylesheet">'',
      ''  <!-- WebPixels CSS -->'',
      ''  <link href="https://cdn.jsdelivr.net/npm/@webpixels/css@latest/dist/index.css" rel="stylesheet">'',
      ''</head>'',
      ''<body>'']\<close>

definition documentTail :: "string list" where
  \<open>documentTail =
     [''  <!-- Bootstrap JS -->'',
      ''  <script src="https://cdn.jsdelivr.net/npm/bootstrap@5.3.3/dist/js/bootstrap.bundle.min.js"></script>'',
      ''</body>'',
      ''</html>'']\<close>

definition wrapDocument :: "string \<Rightarrow> string" where
  "wrapDocument body = join newline (documentHead @ [body] @ documentTail)"

text \<open>
  \<^verbatim>\<open>handleAssemblePage\<close>. \<^verbatim>\<open>includeAssets\<close> is \<^verbatim>\<open>args.includeAssets !== false\<close>; the
  \<^verbatim>\<open>layout\<close> argument is never read. The validation loop collects the references that
  \<^verbatim>\<open>getComponent\<close> does not resolve; the assembly loop pushes the \<^verbatim>\<open>html\<close> of each
  reference that resolves.
\<close>

definition missingComponents :: "WebPixelsServer \<Rightarrow> string list \<Rightarrow> string list" where
  "missingComponents s componentIds = filter (\<lambda>i. getComponent s i = None) componentIds"

definition assembleParts :: "WebPixelsServer \<Rightarrow> string list \<Rightarrow> string list" where
  "assembleParts s componentIds =
     concat (map (\<lambda>i. case getComponent s i of Some c \<Rightarrow> [html c] | None \<Rightarrow> []) componentIds)"

definition handleAssemblePage :: "WebPixelsServer \<Rightarrow> ToolArgs \<Rightarrow> ToolResult" where
  "handleAssemblePage s args =
     (let includeAssets = (a_includeAssets args \<noteq> Some False) in
      case a_components args of
        None \<Rightarrow> \<lparr>content = ErrorPayload ''No components provided'' None, isError = True\<rparr>
      | Some componentIds \<Rightarrow>
          if length componentIds = 0 then
            \<lparr>content = ErrorPayload ''No components provided'' None, isError = True\<rparr>
          else
            let missing = missingComponents s componentIds in
            if length missing > 0 then
              \<lparr>content = ErrorPayload ''Components not found'' (Some missing), isError = True\<rparr>
            else
              let body = join (newline @ newline) (assembleParts s componentIds);
                  html = (if includeAssets then wrapDocument body else body)
              in \<lparr>content = HtmlText html, isError = False\<rparr>)"

text \<open>
  \<^verbatim>\<open>handleGetDependencies\<close>. The direction is \<^verbatim>\<open>args.direction || 'both'\<close>, so an absent
  or empty direction is \<^verbatim>\<open>both\<close>. Each list is resolved through \<^verbatim>\<open>componentsBySlug\<close>
  alone (\<^verbatim>\<open>map\<close> then \<^verbatim>\<open>filter\<close> of the \<^verbatim>\<open>undefined\<close> entries).
\<close>

definition resolveSlugs :: "WebPixelsServer \<Rightarrow> string list \<Rightarrow> ComponentData list" where
  "resolveSlugs s slugs =
     map the (filter (\<lambda>c. c \<noteq> None) (map (componentsBySlug s) slugs))"

definition handleGetDependencies :: "WebPixelsServer \<Rightarrow> ToolArgs \<Rightarrow> ToolResult" where
  "handleGetDependencies s args =
     (let direction = (case a_direction args of
                         Some d \<Rightarrow> if d \<noteq> [] then d else ''both''
                       | None \<Rightarrow> ''both'')
      in case getComponentArg s (a_id args) of
        None \<Rightarrow>
          \<lparr>content = ErrorPayload (''Component not found: '' @ showArg (a_id args)) None,
           isError = True\<rparr>
      | Some c \<Rightarrow>
          \<lparr>content = DependenciesPayload
             \<lparr>r_component = \<lparr>i_id = cid c, i_slug = slug c, i_name = name c\<rparr>,
              r_dependencies =
                (if direction = ''dependencies'' \<or> direction = ''both''
                 then Some (map formatComponentSummary (resolveSlugs s (dependencies c)))
                 else None),
              r_dependents =
                (if direction = ''dependents'' \<or> direction = ''both''
                 then Some (map formatComponentSummary (resolveSlugs s (used_by c)))
                 else None)\<rparr>,
           isError = False\<rparr>)"


section \<open>Resource handlers\<close>



definition handleComponentResource ::
  "WebPixelsServer \<Rightarrow> string option \<Rightarrow> exception + ResourceResult" where
  "handleComponentResource s idOrSlug =
     (case getComponentArg s idOrSlug of
        None \<Rightarrow> Inl (Error (''Component not found: '' @ showArg idOrSlug))
      | Some c \<Rightarrow>
          Inr \<lparr>r_uri = ''component://'' @ showArg idOrSlug,
               r_mimeType = ''application/json'',
               r_text = ComponentPayload (formatComponentDetail c)\<rparr>)"

text \<open>
  \<^verbatim>\<open>uri.split('://')\<close>: the pieces of the URI between the occurrences of the separator,
  found from the left; \<open>acc\<close> holds the current piece, reversed.
\<close>

fun splitUri :: "string \<Rightarrow> string \<Rightarrow> string list" where
  "splitUri acc [] = [rev acc]"
| "splitUri acc (x # xs) =
     (if take 3 (x # xs) = ''://'' then rev acc # splitUri [] (drop 2 xs)
      else splitUri (x # acc) xs)"


section \<open>Example catalogs\<close>

text \<open>
  Catalogs on which the theorems below are instantiated. \<open>mkComponent\<close> fills the fields
  no operation reads with fixed values.
\<close>

definition noHints :: ContentHints where
  "noHints =
     \<lparr>has_images = False, has_icons = False, has_buttons = False, has_form = False,
      has_carousel = False, has_video = False, color_scheme = Light,
      layout_type = Contained\<rparr>"

definition mkComponent ::
  "string \<Rightarrow> string \<Rightarrow> string \<Rightarrow> string \<Rightarrow> string \<Rightarrow> string list \<Rightarrow> string list
     \<Rightarrow> bool \<Rightarrow> bool \<Rightarrow> bool \<Rightarrow> ComponentData" where
  "mkComponent i sl cat sub h deps users free pub feat =
     \<lparr>cid = i, slug = sl, name = sl, ctype = Section, category = cat, subcategory = sub,
      description = [], tags = [], keywords_c = [], use_cases = [], includes_c = [],
      content_hints = noHints, html = h, dependencies = deps, used_by = users,
      similar_to = [], is_free = free, is_published = pub, is_featured = feat,
      is_new = False, created_at = [], updated_at = []\<rparr>"

text \<open>
  The example of the specification (a free hero section and a paid pricing section that
  depends on it), with a dangling dependency \<^verbatim>\<open>ghost\<close> added to the pricing section, and
  an unpublished login form.
\<close>

definition hero :: ComponentData where
  "hero = mkComponent ''u1'' ''section-hero-1'' ''sections'' ''hero'' ''<div>Hero</div>''
            [] [''section-pricing-1''] True True True"

definition pricing :: ComponentData where
  "pricing = mkComponent ''u2'' ''section-pricing-1'' ''sections'' ''pricing''
               ''<div>Pricing</div>'' [''section-hero-1'', ''ghost''] [] False True False"

definition login :: ComponentData where
  "login = mkComponent ''u3'' ''form-login-1'' ''forms'' ''auth'' ''<form></form>''
             [] [] True False False"

definition mkCategory :: "string \<Rightarrow> bool \<Rightarrow> Category" where
  "mkCategory sl pub =
     \<lparr>cat_slug = sl, cat_name = sl, cat_icon = None, cat_description = None,
      cat_is_published = pub, cat_items = []\<rparr>"

definition exampleCatalog :: ComponentCatalog where
  "exampleCatalog =
     \<lparr>version = ''1'', generated_at = [],
      categories = [mkCategory ''sections'' True, mkCategory ''forms'' True,
                    mkCategory ''drafts'' False],
      components = [hero, pricing, login]\<rparr>"

definition exampleServer :: WebPixelsServer where
  "exampleServer = newServer exampleCatalog"

text \<open>
  \<open>rowCatalog n\<close>: \<open>n\<close> published paid components followed by one published free
  component, with pairwise different ids and slugs.
\<close>

definition numbered :: "nat \<Rightarrow> bool \<Rightarrow> ComponentData" where
  "numbered k free =
     mkComponent (CHR ''c'' # replicate k (CHR ''x'')) (CHR ''s'' # replicate k (CHR ''x''))
       ''sections'' ''hero'' [] [] [] free True False"

definition rowCatalog :: "nat \<Rightarrow> ComponentCatalog" where
  "rowCatalog n =
     \<lparr>version = ''1'', generated_at = [], categories = [],
      components = map (\<lambda>k. numbered k False) [0..<n] @ [numbered n True]\<rparr>"

text \<open>
  A catalog in which the key \<^verbatim>\<open>x\<close> is the id of one component and the slug of
  another.
\<close>

definition idHolder :: ComponentData where
  "idHolder = mkComponent ''x'' ''alpha'' ''sections'' ''hero'' ''<p>A</p>'' [] [] True True False"

definition slugHolder :: ComponentData where
  "slugHolder = mkComponent ''u9'' ''x'' ''sections'' ''hero'' ''<p>B</p>'' [] [] True True False"

definition collidingCatalog :: ComponentCatalog where
  "collidingCatalog =
     \<lparr>version = ''1'', generated_at = [], categories = [],
      components = [idHolder, slugHolder]\<rparr>"

definition noArgs :: ToolArgs where
  "noArgs =
     \<lparr>a_query = None, a_type = None, a_category = None, a_is_free = None, a_limit = None,
      a_id = None, a_components = None, a_layout = None, a_includeAssets = None,
      a_direction = None\<rparr>"

definition noFilters :: SearchFilters where
  "noFilters =
     \<lparr>f_query = None, f_type = None, f_category = None, f_subcategory = None,
      f_is_free = None, f_is_featured = None, f_limit = None\<rparr>"

section \<open>The search as one filter and one cut\<close>

text \<open>
  A second description of the search, used in the proofs only: the conjunction of the
  tests that \<open>searchComponents\<close> applies one after the other, and the cut at the limit.
  Lemma \<open>searchComponents_eq\<close> shows that \<open>searchComponents\<close> computes exactly this.
\<close>

definition matchesFilters :: "SearchFilters \<Rightarrow> ComponentData \<Rightarrow> bool" where
  "matchesFilters filters c =
     (is_published c
      \<and> (case f_type filters of Some t \<Rightarrow> ctype c = t | None \<Rightarrow> True)
      \<and> (case f_category filters of
            Some cat \<Rightarrow> cat = [] \<or> category c = cat \<or> subcategory c = cat
          | None \<Rightarrow> True)
      \<and> (case f_is_free filters of Some b \<Rightarrow> is_free c = b | None \<Rightarrow> True)
      \<and> (case f_is_featured filters of Some b \<Rightarrow> is_featured c = b | None \<Rightarrow> True)
      \<and> (case f_query filters of
            Some q \<Rightarrow> q = [] \<or> includes_str (searchText c) (toLowerCase q)
          | None \<Rightarrow> True))"

definition applyLimit :: "int option \<Rightarrow> 'a list \<Rightarrow> 'a list" where
  "applyLimit limit xs =
     (case limit of Some n \<Rightarrow> if n > 0 then take (nat n) xs else xs | None \<Rightarrow> xs)"

section \<open>The catalog store\<close>

lemma find_unique:
  "distinct (map f xs) \<Longrightarrow> x \<in> set xs \<Longrightarrow> find (\<lambda>y. f y = f x) xs = Some x"
  by (induction xs) (auto simp: image_iff)

lemma fold_indexComponent_catalog [simp]:
  "catalog (fold indexComponent cs s) = catalog s"
  by (induction cs arbitrary: s) (simp_all add: indexComponent_def)

lemma fold_indexCategory_catalog [simp]:
  "catalog (fold indexCategory cs s) = catalog s"
  by (induction cs arbitrary: s) (simp_all add: indexCategory_def)

lemma fold_indexCategory_byId [simp]:
  "componentsById (fold indexCategory cs s) = componentsById s"
  by (induction cs arbitrary: s) (simp_all add: indexCategory_def)

lemma fold_indexCategory_bySlug [simp]:
  "componentsBySlug (fold indexCategory cs s) = componentsBySlug s"
  by (induction cs arbitrary: s) (simp_all add: indexCategory_def)

text \<open>Each index holds, for a key, the last component of the list that carries it.\<close>

lemma fold_indexComponent_byId:
  "componentsById (fold indexComponent cs s) k =
     (case find (\<lambda>c. cid c = k) (rev cs) of Some c \<Rightarrow> Some c | None \<Rightarrow> componentsById s k)"
  by (induction cs rule: rev_induct) (simp_all add: indexComponent_def)

lemma fold_indexComponent_bySlug:
  "componentsBySlug (fold indexComponent cs s) k =
     (case find (\<lambda>c. slug c = k) (rev cs) of Some c \<Rightarrow> Some c | None \<Rightarrow> componentsBySlug s k)"
  by (induction cs rule: rev_induct) (simp_all add: indexComponent_def)

lemma newServer_catalog [simp]: "catalog (newServer cat) = cat"
  by (simp add: newServer_def indexData_def)

lemma newServer_byId:
  "componentsById (newServer cat) k = find (\<lambda>c. cid c = k) (rev (components cat))"
  by (simp add: newServer_def indexData_def fold_indexComponent_byId split: option.split)

lemma newServer_bySlug:
  "componentsBySlug (newServer cat) k = find (\<lambda>c. slug c = k) (rev (components cat))"
  by (simp add: newServer_def indexData_def fold_indexComponent_bySlug split: option.split)

lemma example_components [simp]: "components exampleCatalog = [hero, pricing, login]"
  by (simp add: exampleCatalog_def)

lemma getComponent_id_first:
  "getComponent s k =
     (if componentsById s k \<noteq> None then componentsById s k else componentsBySlug s k)"
  by (simp add: getComponent_def split: option.split)

lemma getComponent_newServer:
  "getComponent (newServer cat) k =
     (case find (\<lambda>c. cid c = k) (rev (components cat)) of
        Some c \<Rightarrow> Some c
      | None \<Rightarrow> find (\<lambda>c. slug c = k) (rev (components cat)))"
  by (simp add: getComponent_def newServer_byId newServer_bySlug split: option.split)

text \<open>
  Claim C1. For every state of the server and every key, \<open>getComponent\<close> returns the
  entry of the id index when there is one, and the entry of the slug index otherwise;
  on the server built from a catalog this is the last component of the catalog with
  that id when there is one, and otherwise the last component with that slug. In a
  catalog whose component ids are pairwise different, whose slugs are pairwise
  different and in which no id of a component is the slug of a component,
  \<open>getComponent\<close> on the id of a component \<open>c\<close> of the catalog returns \<open>c\<close>, and on the
  slug of \<open>c\<close> returns \<open>c\<close>.
\<close>

theorem lookup_roundtrip:
  "(\<forall>k. getComponent s k =
         (if componentsById s k \<noteq> None then componentsById s k
          else componentsBySlug s k))
   \<and> (\<forall>k. getComponent (newServer cat) k =
           (case find (\<lambda>c. cid c = k) (rev (components cat)) of
              Some c \<Rightarrow> Some c
            | None \<Rightarrow> find (\<lambda>c. slug c = k) (rev (components cat))))
   \<and> (distinct (map cid (components cat)) \<and> distinct (map slug (components cat))
        \<and> cid ` set (components cat) \<inter> slug ` set (components cat) = {}
        \<and> c \<in> set (components cat) \<longrightarrow>
        getComponent (newServer cat) (cid c) = Some c
        \<and> getComponent (newServer cat) (slug c) = Some c)"
proof (intro conjI allI impI)
  fix k
  show "getComponent s k =
         (if componentsById s k \<noteq> None then componentsById s k
          else componentsBySlug s k)"
    by (rule getComponent_id_first)
  show "getComponent (newServer cat) k =
           (case find (\<lambda>c. cid c = k) (rev (components cat)) of
              Some c \<Rightarrow> Some c
            | None \<Rightarrow> find (\<lambda>c. slug c = k) (rev (components cat)))"
    by (rule getComponent_newServer)
next
  assume a: "distinct (map cid (components cat)) \<and> distinct (map slug (components cat))
        \<and> cid ` set (components cat) \<inter> slug ` set (components cat) = {}
        \<and> c \<in> set (components cat)"
  then have ids: "distinct (map cid (components cat))"
    and slugs: "distinct (map slug (components cat))"
    and apart: "cid ` set (components cat) \<inter> slug ` set (components cat) = {}"
    and c: "c \<in> set (components cat)"
    by simp_all
  have byId: "componentsById (newServer cat) (cid c) = Some c"
    using ids c by (simp add: newServer_byId find_unique rev_map [symmetric])
  have bySlug: "componentsBySlug (newServer cat) (slug c) = Some c"
    using slugs c by (simp add: newServer_bySlug find_unique rev_map [symmetric])
  have "\<And>x. x \<in> set (components cat) \<Longrightarrow> cid x \<noteq> slug c"
    using apart c by blast
  then have miss: "componentsById (newServer cat) (slug c) = None"
    by (simp add: newServer_byId find_None_iff)
  show "getComponent (newServer cat) (cid c) = Some c"
    by (simp add: getComponent_def byId)
  show "getComponent (newServer cat) (slug c) = Some c"
    by (simp add: getComponent_def bySlug miss)
qed

text \<open>
  The instances: the round trip on the example catalog, and the key \<^verbatim>\<open>x\<close> of the
  colliding catalog, which the slug index maps to \<open>slugHolder\<close> and the lookup resolves
  to \<open>idHolder\<close>, the entry of the id index.
\<close>

theorem lookup_roundtrip_witness:
  "getComponent (newServer exampleCatalog) ''u1'' = Some hero
   \<and> getComponent (newServer exampleCatalog) ''section-hero-1'' = Some hero
   \<and> componentsById (newServer collidingCatalog) ''x'' = Some idHolder
   \<and> componentsBySlug (newServer collidingCatalog) ''x'' = Some slugHolder
   \<and> idHolder \<noteq> slugHolder
   \<and> getComponent (newServer collidingCatalog) ''x'' = Some idHolder"
proof -
  have ids: "distinct (map cid (components exampleCatalog))"
    by (simp add: hero_def pricing_def login_def mkComponent_def)
  have slugs: "distinct (map slug (components exampleCatalog))"
    by (simp add: hero_def pricing_def login_def mkComponent_def)
  have apart: "cid ` set (components exampleCatalog)
                 \<inter> slug ` set (components exampleCatalog) = {}"
    by (simp add: hero_def pricing_def login_def mkComponent_def)
  have mem: "hero \<in> set (components exampleCatalog)"
    by simp
  have u1: "cid hero = ''u1''" and sl: "slug hero = ''section-hero-1''"
    by (simp_all add: hero_def mkComponent_def)
  note t = lookup_roundtrip [of "newServer collidingCatalog" exampleCatalog hero]
  have trip: "getComponent (newServer exampleCatalog) (cid hero) = Some hero
       \<and> getComponent (newServer exampleCatalog) (slug hero) = Some hero"
    using t ids slugs apart mem by blast
  have byId: "componentsById (newServer collidingCatalog) ''x'' = Some idHolder"
    by (simp add: newServer_byId collidingCatalog_def idHolder_def slugHolder_def
        mkComponent_def)
  have bySlug: "componentsBySlug (newServer collidingCatalog) ''x'' = Some slugHolder"
    by (simp add: newServer_bySlug collidingCatalog_def idHolder_def slugHolder_def
        mkComponent_def)
  have differ: "idHolder \<noteq> slugHolder"
    by (simp add: idHolder_def slugHolder_def mkComponent_def)
  have "getComponent (newServer collidingCatalog) ''x'' =
      (if componentsById (newServer collidingCatalog) ''x'' \<noteq> None
       then componentsById (newServer collidingCatalog) ''x''
       else componentsBySlug (newServer collidingCatalog) ''x'')"
    using t by blast
  then have first: "getComponent (newServer collidingCatalog) ''x'' = Some idHolder"
    by (simp add: byId)
  from trip byId bySlug differ first show ?thesis
    by (simp add: u1 sl)
qed

section \<open>Search\<close>

lemma filter_option_case:
  "(case x of Some t \<Rightarrow> filter (P t) xs | None \<Rightarrow> xs) =
     filter (\<lambda>c. case x of Some t \<Rightarrow> P t c | None \<Rightarrow> True) xs"
  by (cases x) simp_all

lemma filter_option_case_nonempty:
  "(case x of Some t \<Rightarrow> if t \<noteq> [] then filter (P t) xs else xs | None \<Rightarrow> xs) =
     filter (\<lambda>c. case x of Some t \<Rightarrow> t = [] \<or> P t c | None \<Rightarrow> True) xs"
  by (cases x) simp_all

lemma limit_option_case:
  "(case l of Some n \<Rightarrow> if n \<noteq> 0 \<and> n > 0 then take (nat n) xs else xs | None \<Rightarrow> xs) =
     applyLimit l xs"
  by (cases l) (simp_all add: applyLimit_def)

lemma searchComponents_eq:
  "searchComponents s f =
     applyLimit (f_limit f) (filter (matchesFilters f) (components (catalog s)))"
proof -
  have "filter (matchesFilters f) (components (catalog s)) =
        filter (\<lambda>c. case f_query f of
                       Some q \<Rightarrow> q = [] \<or> includes_str (searchText c) (toLowerCase q)
                     | None \<Rightarrow> True)
         (filter (\<lambda>c. case f_is_featured f of Some b \<Rightarrow> is_featured c = b | None \<Rightarrow> True)
           (filter (\<lambda>c. case f_is_free f of Some b \<Rightarrow> is_free c = b | None \<Rightarrow> True)
             (filter (\<lambda>c. case f_category f of
                             Some cat \<Rightarrow> cat = [] \<or> category c = cat \<or> subcategory c = cat
                           | None \<Rightarrow> True)
               (filter (\<lambda>c. case f_type f of Some t \<Rightarrow> ctype c = t | None \<Rightarrow> True)
                 (filter is_published (components (catalog s)))))))"
    unfolding filter_filter matchesFilters_def by (rule filter_cong) auto
  then show ?thesis
    unfolding searchComponents_def Let_def
    by (simp only: filter_option_case filter_option_case_nonempty limit_option_case)
qed

lemma subseq_take: "subseq (take n xs) xs"
  by (induction xs arbitrary: n) (auto simp: take_Cons split: nat.split)

lemma set_applyLimit: "set (applyLimit l xs) \<subseteq> set xs"
  by (auto simp: applyLimit_def split: option.splits if_splits dest: in_set_takeD)

lemma subseq_applyLimit: "subseq (applyLimit l xs) xs"
  by (simp add: applyLimit_def subseq_take split: option.splits)

lemma searchFiltersOf_noArgs:
  "searchFiltersOf noArgs = noFilters\<lparr>f_limit := Some 20\<rparr>"
  by (simp add: searchFiltersOf_def noArgs_def noFilters_def)

lemma matchesFilters_noFilters [simp]:
  "matchesFilters (noFilters\<lparr>f_limit := l\<rparr>) = is_published"
  by (rule ext) (simp add: matchesFilters_def noFilters_def)


lemma searchComponents_published:
  "c \<in> set (searchComponents s f) \<Longrightarrow> is_published c \<and> c \<in> set (components (catalog s))"
  using set_applyLimit [of "f_limit f" "filter (matchesFilters f) (components (catalog s))"]
  by (auto simp: searchComponents_eq matchesFilters_def)

lemma searchComponents_subseq: "subseq (searchComponents s f) (components (catalog s))"
  unfolding searchComponents_eq
  by (rule subseq_order.trans [OF subseq_applyLimit subseq_filter_left])

lemma searchComponents_noArgs:
  "searchComponents s (searchFiltersOf noArgs) =
     take 20 (filter is_published (components (catalog s)))"
  by (simp add: searchComponents_eq searchFiltersOf_noArgs applyLimit_def)

text \<open>
  Claim C2. The search tool called with no argument returns the first 20 published
  components of the catalog: at most 20 components, each of them published, in the
  order of the catalog (the result is a subsequence of the catalog's component list).
  Whatever the filters, every component \<open>searchComponents\<close> returns is published.
\<close>

theorem search_no_filters:
  "content (handleSearchComponents s noArgs) =
     SearchPayload (length (searchComponents s (searchFiltersOf noArgs)))
       (map formatComponentSummary (searchComponents s (searchFiltersOf noArgs)))
   \<and> searchComponents s (searchFiltersOf noArgs) =
       take 20 (filter is_published (components (catalog s)))
   \<and> length (searchComponents s (searchFiltersOf noArgs)) \<le> 20
   \<and> (\<forall>c \<in> set (searchComponents s (searchFiltersOf noArgs)). is_published c)
   \<and> subseq (searchComponents s (searchFiltersOf noArgs)) (components (catalog s))
   \<and> (\<forall>f. \<forall>c \<in> set (searchComponents s f). is_published c)"
proof (intro conjI)
  show "content (handleSearchComponents s noArgs) =
     SearchPayload (length (searchComponents s (searchFiltersOf noArgs)))
       (map formatComponentSummary (searchComponents s (searchFiltersOf noArgs)))"
    by (simp add: handleSearchComponents_def Let_def)
  show "searchComponents s (searchFiltersOf noArgs) =
       take 20 (filter is_published (components (catalog s)))"
    by (rule searchComponents_noArgs)
  show "length (searchComponents s (searchFiltersOf noArgs)) \<le> 20"
    by (simp add: searchComponents_noArgs)
  show "\<forall>c \<in> set (searchComponents s (searchFiltersOf noArgs)). is_published c"
    using searchComponents_published by blast
  show "subseq (searchComponents s (searchFiltersOf noArgs)) (components (catalog s))"
    by (rule searchComponents_subseq)
  show "\<forall>f. \<forall>c \<in> set (searchComponents s f). is_published c"
    using searchComponents_published by blast
qed

lemma example_published:
  "is_published hero" "is_published pricing" "\<not> is_published login"
  by (simp_all add: hero_def pricing_def login_def mkComponent_def)

lemma exampleServer_catalog [simp]: "catalog exampleServer = exampleCatalog"
  by (simp add: exampleServer_def)

theorem search_no_filters_witness:
  "searchComponents exampleServer (searchFiltersOf noArgs) = [hero, pricing]
   \<and> content (handleSearchComponents exampleServer noArgs) =
       SearchPayload 2 [formatComponentSummary hero, formatComponentSummary pricing]
   \<and> is_published hero \<and> is_published pricing \<and> \<not> is_published login"
proof -
  have "take 20 (filter is_published (components (catalog exampleServer))) = [hero, pricing]"
    by (simp add: example_published)
  with search_no_filters [of exampleServer] show ?thesis
    by (simp add: example_published)
qed

lemma numbered_simps [simp]:
  "is_published (numbered k b)" "is_free (numbered k b) = b"
  by (simp_all add: numbered_def mkComponent_def)

lemma rowCatalog_components:
  "components (rowCatalog n) =
     map (\<lambda>k. numbered k False) [0..<n] @ [numbered n True]"
  by (simp add: rowCatalog_def)

lemma rowCatalog_published:
  "filter is_published (components (rowCatalog n)) =
     map (\<lambda>k. numbered k False) [0..<n] @ [numbered n True]"
  by (simp add: rowCatalog_components filter_map o_def)

lemma searchFiltersOf_free:
  "searchFiltersOf (noArgs\<lparr>a_is_free := Some b\<rparr>) =
     noFilters\<lparr>f_is_free := Some b, f_limit := Some 20\<rparr>"
  by (simp add: searchFiltersOf_def noArgs_def noFilters_def)

lemma matchesFilters_free [simp]:
  "matchesFilters (noFilters\<lparr>f_is_free := Some b, f_limit := l\<rparr>)
     = (\<lambda>c. is_published c \<and> is_free c = b)"
  by (rule ext) (simp add: matchesFilters_def noFilters_def)

lemma searchComponents_free:
  "searchComponents s (searchFiltersOf (noArgs\<lparr>a_is_free := Some b\<rparr>)) =
     take 20 (filter (\<lambda>c. is_published c \<and> is_free c = b) (components (catalog s)))"
  by (simp add: searchComponents_eq searchFiltersOf_free applyLimit_def)

lemma rowCatalog_search_free:
  "searchComponents (newServer (rowCatalog n)) (searchFiltersOf (noArgs\<lparr>a_is_free := Some True\<rparr>))
     = [numbered n True]"
  by (simp add: searchComponents_free rowCatalog_components filter_map o_def)

lemma rowCatalog_search_none:
  "searchComponents (newServer (rowCatalog 20)) (searchFiltersOf noArgs)
     = map (\<lambda>k. numbered k False) [0..<20]"
  by (simp add: searchComponents_noArgs rowCatalog_published)

text \<open>
  Claim C4 as stated fails. In \<open>rowCatalog 20\<close> the 20 paid components fill the default
  limit of the search without filters, and the free component behind them is the only
  result of the search for free components: it is returned by the second search and
  not by the first, as a component and as a summary.
\<close>

theorem search_free_not_subset:
  "\<not> set (searchComponents (newServer (rowCatalog 20))
            (searchFiltersOf (noArgs\<lparr>a_is_free := Some True\<rparr>)))
       \<subseteq> set (searchComponents (newServer (rowCatalog 20)) (searchFiltersOf noArgs))
   \<and> \<not> set (map formatComponentSummary
              (searchComponents (newServer (rowCatalog 20))
                 (searchFiltersOf (noArgs\<lparr>a_is_free := Some True\<rparr>))))
       \<subseteq> set (map formatComponentSummary
              (searchComponents (newServer (rowCatalog 20)) (searchFiltersOf noArgs)))"
proof -
  have "numbered 20 True \<notin> set (map (\<lambda>k. numbered k False) [0..<20])"
  proof
    assume "numbered 20 True \<in> set (map (\<lambda>k. numbered k False) [0..<20])"
    then obtain k where "numbered 20 True = numbered k False" by auto
    then have "is_free (numbered 20 True) = is_free (numbered k False)" by simp
    then show False by simp
  qed
  moreover have "formatComponentSummary (numbered 20 True)
      \<notin> set (map formatComponentSummary (map (\<lambda>k. numbered k False) [0..<20]))"
  proof
    assume "formatComponentSummary (numbered 20 True)
      \<in> set (map formatComponentSummary (map (\<lambda>k. numbered k False) [0..<20]))"
    then obtain k where
      "formatComponentSummary (numbered 20 True) = formatComponentSummary (numbered k False)"
      by auto
    then have "s_is_free (formatComponentSummary (numbered 20 True))
                 = s_is_free (formatComponentSummary (numbered k False))"
      by simp
    then show False by (simp add: formatComponentSummary_def)
  qed
  ultimately show ?thesis
    by (simp only: rowCatalog_search_free rowCatalog_search_none) simp
qed

text \<open>
  Claim C4, amended. Every component returned by the search for free components (default
  limit) is free, published and a component of the catalog; and when the catalog has at
  most 20 published components, each of them is also returned by the search without
  filters.
\<close>

theorem search_free_subset:
  "(\<forall>c \<in> set (searchComponents s (searchFiltersOf (noArgs\<lparr>a_is_free := Some True\<rparr>))).
      is_free c \<and> is_published c \<and> c \<in> set (components (catalog s)))
   \<and> (length (filter is_published (components (catalog s))) \<le> 20 \<longrightarrow>
        set (searchComponents s (searchFiltersOf (noArgs\<lparr>a_is_free := Some True\<rparr>)))
          \<subseteq> set (searchComponents s (searchFiltersOf noArgs)))"
proof (intro conjI ballI impI)
  fix c
  assume "c \<in> set (searchComponents s (searchFiltersOf (noArgs\<lparr>a_is_free := Some True\<rparr>)))"
  then have "c \<in> set (filter (\<lambda>c. is_published c \<and> is_free c = True) (components (catalog s)))"
    unfolding searchComponents_free by (rule in_set_takeD)
  then show "is_free c" "is_published c" "c \<in> set (components (catalog s))"
    by simp_all
next
  assume "length (filter is_published (components (catalog s))) \<le> 20"
  then have all: "searchComponents s (searchFiltersOf noArgs) =
                  filter is_published (components (catalog s))"
    by (simp add: searchComponents_noArgs)
  show "set (searchComponents s (searchFiltersOf (noArgs\<lparr>a_is_free := Some True\<rparr>)))
          \<subseteq> set (searchComponents s (searchFiltersOf noArgs))"
    unfolding all using searchComponents_published by auto
qed

theorem search_free_subset_witness:
  "searchComponents exampleServer (searchFiltersOf (noArgs\<lparr>a_is_free := Some True\<rparr>)) = [hero]
   \<and> is_free hero \<and> is_published hero
   \<and> length (filter is_published (components (catalog exampleServer))) \<le> 20
   \<and> hero \<in> set (searchComponents exampleServer (searchFiltersOf noArgs))"
proof -
  have free: "is_free hero" "\<not> is_free pricing"
    by (simp_all add: hero_def pricing_def mkComponent_def)
  have r: "searchComponents exampleServer (searchFiltersOf (noArgs\<lparr>a_is_free := Some True\<rparr>))
             = [hero]"
    by (simp add: searchComponents_free example_published free)
  have le: "length (filter is_published (components (catalog exampleServer))) \<le> 20"
    by (simp add: example_published)
  from search_free_subset [of exampleServer] r le show ?thesis
    by simp
qed

lemma matchesFilters_limit [simp]: "matchesFilters (f\<lparr>f_limit := l\<rparr>) = matchesFilters f"
  by (rule ext) (simp add: matchesFilters_def)

lemma searchComponents_unlimited:
  "searchComponents s (f\<lparr>f_limit := None\<rparr>) =
     filter (matchesFilters f) (components (catalog s))"
  by (simp add: searchComponents_eq applyLimit_def)

lemma searchComponents_cut:
  "searchComponents s f = applyLimit (f_limit f) (searchComponents s (f\<lparr>f_limit := None\<rparr>))"
  by (simp add: searchComponents_unlimited) (simp add: searchComponents_eq)

lemma searchFiltersOf_not_featured: "f_is_featured (searchFiltersOf args) = None"
  by (simp add: searchFiltersOf_def)

lemma matchesFilters_featured:
  "f_is_featured f = Some b \<Longrightarrow>
     matchesFilters f c = (is_featured c = b \<and> matchesFilters (f\<lparr>f_is_featured := None\<rparr>) c)"
  by (auto simp: matchesFilters_def)

text \<open>
  Claim C5. When the \<open>is_featured\<close> filter is present in the filters of
  \<open>searchComponents\<close>, every returned component has \<open>is_featured\<close> equal to the given
  boolean, no component with the other value is returned, and the result is the result
  of the same search without this filter and without limit, narrowed to the components
  with that value and then cut at the limit. (The filters that \<open>handleSearchComponents\<close>
  builds never carry this filter: lemma \<open>searchFiltersOf_not_featured\<close>.)
\<close>

theorem search_is_featured:
  assumes "f_is_featured f = Some b"
  shows "(\<forall>c \<in> set (searchComponents s f). is_featured c = b)
       \<and> (\<forall>c. is_featured c \<noteq> b \<longrightarrow> c \<notin> set (searchComponents s f))
       \<and> searchComponents s f =
           (let narrowed = filter (\<lambda>c. is_featured c = b)
                             (searchComponents s (f\<lparr>f_is_featured := None, f_limit := None\<rparr>))
            in case f_limit f of
                 Some n \<Rightarrow> if n > 0 then take (nat n) narrowed else narrowed
               | None \<Rightarrow> narrowed)"
proof -
  have narrowed: "searchComponents s (f\<lparr>f_limit := None\<rparr>) =
      filter (\<lambda>c. is_featured c = b)
        (searchComponents s (f\<lparr>f_is_featured := None, f_limit := None\<rparr>))"
  proof -
    have "filter (matchesFilters f) (components (catalog s)) =
          filter (\<lambda>c. is_featured c = b)
            (filter (matchesFilters (f\<lparr>f_is_featured := None\<rparr>)) (components (catalog s)))"
      unfolding filter_filter
      by (rule filter_cong) (auto simp: matchesFilters_featured [OF assms])
    then show ?thesis
      using searchComponents_unlimited [of s "f\<lparr>f_is_featured := None\<rparr>"]
      by (simp add: searchComponents_unlimited)
  qed
  have cut: "searchComponents s f =
      applyLimit (f_limit f)
        (filter (\<lambda>c. is_featured c = b)
          (searchComponents s (f\<lparr>f_is_featured := None, f_limit := None\<rparr>)))"
    using searchComponents_cut [of s f] by (simp only: narrowed)
  have all: "\<forall>c \<in> set (searchComponents s f). is_featured c = b"
    using set_applyLimit [of "f_limit f"] unfolding cut by fastforce
  from all have "\<forall>c. is_featured c \<noteq> b \<longrightarrow> c \<notin> set (searchComponents s f)"
    by blast
  with all cut show ?thesis
    by (simp add: applyLimit_def Let_def)
qed

theorem search_is_featured_witness:
  "searchComponents exampleServer (noFilters\<lparr>f_is_featured := Some False\<rparr>) = [pricing]
   \<and> searchComponents exampleServer (noFilters\<lparr>f_is_featured := None, f_limit := None\<rparr>)
       = [hero, pricing]
   \<and> is_featured hero \<and> \<not> is_featured pricing"
proof -
  have ft: "is_featured hero" "\<not> is_featured pricing"
    by (simp_all add: hero_def pricing_def mkComponent_def)
  have a: "f_is_featured (noFilters\<lparr>f_is_featured := Some False\<rparr>) = Some False"
    by simp
  have l: "f_limit (noFilters\<lparr>f_is_featured := Some False\<rparr>) = None"
    by (simp add: noFilters_def)
  have u: "searchComponents exampleServer (noFilters\<lparr>f_is_featured := None, f_limit := None\<rparr>)
             = [hero, pricing]"
    by (simp add: searchComponents_eq applyLimit_def matchesFilters_def noFilters_def
        example_published)
  from search_is_featured [OF a, of exampleServer] show ?thesis
    by (simp add: l u ft Let_def)
qed

lemma searchFiltersOf_a_limit:
  "searchFiltersOf (args\<lparr>a_limit := l\<rparr>) =
     (searchFiltersOf args)\<lparr>f_limit :=
        (case l of Some n \<Rightarrow> if n \<noteq> 0 then Some n else Some 20 | None \<Rightarrow> Some 20)\<rparr>"
  by (simp add: searchFiltersOf_def)

lemma searchComponents_set_limit:
  "searchComponents s (f\<lparr>f_limit := l\<rparr>) =
     applyLimit l (searchComponents s (f\<lparr>f_limit := None\<rparr>))"
  using searchComponents_cut [of s "f\<lparr>f_limit := l\<rparr>"] by simp

lemma handler_limit:
  "searchComponents s (searchFiltersOf (args\<lparr>a_limit := l\<rparr>)) =
     applyLimit (case l of Some n \<Rightarrow> if n \<noteq> 0 then Some n else Some 20 | None \<Rightarrow> Some 20)
       (searchComponents s ((searchFiltersOf args)\<lparr>f_limit := None\<rparr>))"
  unfolding searchFiltersOf_a_limit by (rule searchComponents_set_limit)

lemma matchesFilters_none [simp]: "matchesFilters noFilters = is_published"
  by (rule ext) (simp add: matchesFilters_def noFilters_def)

lemma rowCatalog_unlimited:
  "searchComponents (newServer (rowCatalog n)) ((searchFiltersOf noArgs)\<lparr>f_limit := None\<rparr>)
     = components (rowCatalog n)"
  by (simp add: searchComponents_unlimited searchFiltersOf_noArgs rowCatalog_published)
     (simp add: rowCatalog_components)

lemma rowCatalog_length: "length (components (rowCatalog n)) = Suc n"
  by (simp add: rowCatalog_components)

text \<open>
  Claim C10. For every argument record, the payload of \<open>handleSearchComponents\<close> is the
  number and the summaries of the components that \<open>searchComponents\<close> returns for the
  filters built from the arguments. With a limit of 0 these are the first 20 matching
  components, as with an absent limit; with a negative limit they are all matching
  components (the search without limit); with a positive limit \<open>m\<close> they are the first
  \<open>m\<close> components of the result for a negative limit, so never more; and for every
  positive limit there is a catalog on which a negative limit returns strictly more
  components.
\<close>

theorem search_limit_zero_negative:
  "(\<forall>a. handleSearchComponents s a =
         \<lparr>content = SearchPayload (length (searchComponents s (searchFiltersOf a)))
                      (map formatComponentSummary (searchComponents s (searchFiltersOf a))),
          isError = False\<rparr>)
   \<and> searchComponents s (searchFiltersOf (args\<lparr>a_limit := Some 0\<rparr>)) =
       take 20 (searchComponents s ((searchFiltersOf args)\<lparr>f_limit := None\<rparr>))
   \<and> searchComponents s (searchFiltersOf (args\<lparr>a_limit := Some 0\<rparr>)) =
       searchComponents s (searchFiltersOf (args\<lparr>a_limit := None\<rparr>))
   \<and> (\<forall>n<0. searchComponents s (searchFiltersOf (args\<lparr>a_limit := Some n\<rparr>)) =
              searchComponents s ((searchFiltersOf args)\<lparr>f_limit := None\<rparr>))
   \<and> (\<forall>n<0. \<forall>m>0.
         searchComponents s (searchFiltersOf (args\<lparr>a_limit := Some m\<rparr>)) =
           take (nat m) (searchComponents s (searchFiltersOf (args\<lparr>a_limit := Some n\<rparr>))))
   \<and> (\<forall>m>0. \<exists>cat.
         length (searchComponents (newServer cat) (searchFiltersOf (noArgs\<lparr>a_limit := Some m\<rparr>)))
           < length (searchComponents (newServer cat)
                       (searchFiltersOf (noArgs\<lparr>a_limit := Some (- 1)\<rparr>))))"
proof (intro conjI allI impI)
  fix a
  show "handleSearchComponents s a =
         \<lparr>content = SearchPayload (length (searchComponents s (searchFiltersOf a)))
                      (map formatComponentSummary (searchComponents s (searchFiltersOf a))),
          isError = False\<rparr>"
    by (simp add: handleSearchComponents_def Let_def)
next
  show "searchComponents s (searchFiltersOf (args\<lparr>a_limit := Some 0\<rparr>)) =
     take 20 (searchComponents s ((searchFiltersOf args)\<lparr>f_limit := None\<rparr>))"
    by (simp add: handler_limit applyLimit_def)
  show "searchComponents s (searchFiltersOf (args\<lparr>a_limit := Some 0\<rparr>)) =
       searchComponents s (searchFiltersOf (args\<lparr>a_limit := None\<rparr>))"
    by (simp add: handler_limit)
next
  fix n :: int assume "n < 0"
  then show "searchComponents s (searchFiltersOf (args\<lparr>a_limit := Some n\<rparr>)) =
              searchComponents s ((searchFiltersOf args)\<lparr>f_limit := None\<rparr>)"
    by (simp add: handler_limit applyLimit_def)
next
  fix n m :: int assume "n < 0" "0 < m"
  then show "searchComponents s (searchFiltersOf (args\<lparr>a_limit := Some m\<rparr>)) =
           take (nat m) (searchComponents s (searchFiltersOf (args\<lparr>a_limit := Some n\<rparr>)))"
    by (simp add: handler_limit applyLimit_def)
next
  fix m :: int assume m: "0 < m"
  have "length (searchComponents (newServer (rowCatalog (nat m)))
                  (searchFiltersOf (noArgs\<lparr>a_limit := Some m\<rparr>))) = nat m"
    using m by (simp add: handler_limit applyLimit_def rowCatalog_unlimited rowCatalog_length)
  moreover have "length (searchComponents (newServer (rowCatalog (nat m)))
                  (searchFiltersOf (noArgs\<lparr>a_limit := Some (- 1)\<rparr>))) = Suc (nat m)"
    by (simp add: handler_limit applyLimit_def rowCatalog_unlimited rowCatalog_length)
  ultimately show "\<exists>cat.
         length (searchComponents (newServer cat) (searchFiltersOf (noArgs\<lparr>a_limit := Some m\<rparr>)))
           < length (searchComponents (newServer cat)
                       (searchFiltersOf (noArgs\<lparr>a_limit := Some (- 1)\<rparr>)))"
    by (intro exI [of _ "rowCatalog (nat m)"]) simp
qed

text \<open>
  On \<open>rowCatalog 20\<close>, which has 21 published components, the tool returns 20 of them
  for the limit 0, all 21 for the limit -1 and 5 for the limit 5.
\<close>

theorem search_limit_zero_negative_witness:
  "handleSearchComponents (newServer (rowCatalog 20)) (noArgs\<lparr>a_limit := Some 0\<rparr>) =
     \<lparr>content = SearchPayload 20
        (map formatComponentSummary (take 20 (components (rowCatalog 20)))),
      isError = False\<rparr>
   \<and> handleSearchComponents (newServer (rowCatalog 20)) (noArgs\<lparr>a_limit := Some (- 1)\<rparr>) =
     \<lparr>content = SearchPayload 21 (map formatComponentSummary (components (rowCatalog 20))),
      isError = False\<rparr>
   \<and> handleSearchComponents (newServer (rowCatalog 20)) (noArgs\<lparr>a_limit := Some 5\<rparr>) =
     \<lparr>content = SearchPayload 5
        (map formatComponentSummary (take 5 (components (rowCatalog 20)))),
      isError = False\<rparr>"
proof -
  note t = search_limit_zero_negative [of "newServer (rowCatalog 20)" noArgs]
  note link = t [THEN conjunct1, rule_format]
  have u: "searchComponents (newServer (rowCatalog 20))
             ((searchFiltersOf noArgs)\<lparr>f_limit := None\<rparr>) = components (rowCatalog 20)"
    by (rule rowCatalog_unlimited)
  have len: "length (components (rowCatalog 20)) = 21"
    by (simp add: rowCatalog_length)
  have zero: "searchComponents (newServer (rowCatalog 20))
                        (searchFiltersOf (noArgs\<lparr>a_limit := Some 0\<rparr>)) =
     take 20 (searchComponents (newServer (rowCatalog 20))
                ((searchFiltersOf noArgs)\<lparr>f_limit := None\<rparr>))"
    by (rule t [THEN conjunct2, THEN conjunct1])
  have neg: "searchComponents (newServer (rowCatalog 20))
                        (searchFiltersOf (noArgs\<lparr>a_limit := Some (- 1)\<rparr>)) =
     searchComponents (newServer (rowCatalog 20)) ((searchFiltersOf noArgs)\<lparr>f_limit := None\<rparr>)"
    by (rule t [THEN conjunct2, THEN conjunct2, THEN conjunct2, THEN conjunct1, rule_format])
       simp
  have pos: "searchComponents (newServer (rowCatalog 20))
                        (searchFiltersOf (noArgs\<lparr>a_limit := Some 5\<rparr>)) =
     take (nat 5) (searchComponents (newServer (rowCatalog 20))
                (searchFiltersOf (noArgs\<lparr>a_limit := Some (- 1)\<rparr>)))"
    by (rule t [THEN conjunct2, THEN conjunct2, THEN conjunct2, THEN conjunct2, THEN conjunct1,
                rule_format])
       simp_all
  have "handleSearchComponents (newServer (rowCatalog 20)) (noArgs\<lparr>a_limit := Some 0\<rparr>) =
     \<lparr>content = SearchPayload 20
        (map formatComponentSummary (take 20 (components (rowCatalog 20)))),
      isError = False\<rparr>"
    unfolding link zero u by (simp add: len)
  moreover have
    "handleSearchComponents (newServer (rowCatalog 20)) (noArgs\<lparr>a_limit := Some (- 1)\<rparr>) =
     \<lparr>content = SearchPayload 21 (map formatComponentSummary (components (rowCatalog 20))),
      isError = False\<rparr>"
    unfolding link neg u by (simp add: len)
  moreover have
    "handleSearchComponents (newServer (rowCatalog 20)) (noArgs\<lparr>a_limit := Some 5\<rparr>) =
     \<lparr>content = SearchPayload 5
        (map formatComponentSummary (take 5 (components (rowCatalog 20)))),
      isError = False\<rparr>"
    unfolding link pos neg u by (simp add: len)
  ultimately show ?thesis
    by blast
qed

section \<open>Page assembly\<close>

lemma example_lookup:
  "getComponent exampleServer ''section-hero-1'' = Some hero"
  "getComponent exampleServer ''section-pricing-1'' = Some pricing"
  "getComponent exampleServer ''u2'' = Some pricing"
  "getComponent exampleServer ''nonexistent-slug'' = None"
  "getComponent exampleServer ''ghost'' = None"
  by (simp_all add: getComponent_def exampleServer_def newServer_byId newServer_bySlug
      hero_def pricing_def login_def mkComponent_def)

lemma example_bySlug:
  "componentsBySlug exampleServer ''section-hero-1'' = Some hero"
  "componentsBySlug exampleServer ''section-pricing-1'' = Some pricing"
  "componentsBySlug exampleServer ''ghost'' = None"
  "componentsBySlug exampleServer ''u1'' = None"
  by (simp_all add: exampleServer_def newServer_bySlug
      hero_def pricing_def login_def mkComponent_def)

lemma missingComponents_empty_iff:
  "missingComponents s ids = [] \<longleftrightarrow> (\<forall>i \<in> set ids. getComponent s i \<noteq> None)"
  by (simp add: missingComponents_def filter_empty_conv)

lemma assembleParts_resolved:
  "\<forall>i \<in> set ids. getComponent s i \<noteq> None \<Longrightarrow>
     assembleParts s ids =
       map (\<lambda>i. case getComponent s i of Some c \<Rightarrow> html c | None \<Rightarrow> []) ids"
  unfolding assembleParts_def
  by (induction ids) (auto split: option.splits)

text \<open>
  Claim C3. \<open>handleAssemblePage\<close> on an absent or empty list of references returns the
  error payload \<^verbatim>\<open>No components provided\<close>, which has no \<^verbatim>\<open>missing\<close> list. When some
  reference of the list does not resolve through \<open>getComponent\<close>, it returns the error
  payload \<^verbatim>\<open>Components not found\<close> whose \<^verbatim>\<open>missing\<close> list is the list of the
  references that do not resolve, in input order. An HTML text is returned only when the
  list is not empty and every reference resolves.
\<close>

theorem assemble_errors:
  "(a_components args = None \<or> a_components args = Some [] \<longrightarrow>
      handleAssemblePage s args =
        \<lparr>content = ErrorPayload ''No components provided'' None, isError = True\<rparr>)
   \<and> (\<forall>ids. a_components args = Some ids \<and> (\<exists>i \<in> set ids. getComponent s i = None) \<longrightarrow>
         handleAssemblePage s args =
           \<lparr>content = ErrorPayload ''Components not found''
                        (Some (filter (\<lambda>i. getComponent s i = None) ids)),
            isError = True\<rparr>)
   \<and> (\<forall>h. content (handleAssemblePage s args) = HtmlText h \<longrightarrow>
         (\<exists>ids. a_components args = Some ids \<and> ids \<noteq> []
                \<and> (\<forall>i \<in> set ids. getComponent s i \<noteq> None)))"
proof (intro conjI allI impI)
  assume "a_components args = None \<or> a_components args = Some []"
  then show "handleAssemblePage s args =
        \<lparr>content = ErrorPayload ''No components provided'' None, isError = True\<rparr>"
    by (auto simp: handleAssemblePage_def)
next
  fix ids
  assume a: "a_components args = Some ids \<and> (\<exists>i \<in> set ids. getComponent s i = None)"
  then have "ids \<noteq> []" and "missingComponents s ids \<noteq> []"
    by (auto simp: missingComponents_empty_iff)
  with a show "handleAssemblePage s args =
           \<lparr>content = ErrorPayload ''Components not found''
                        (Some (filter (\<lambda>i. getComponent s i = None) ids)),
            isError = True\<rparr>"
    by (simp add: handleAssemblePage_def) (simp add: missingComponents_def)
next
  fix h
  assume h: "content (handleAssemblePage s args) = HtmlText h"
  show "\<exists>ids. a_components args = Some ids \<and> ids \<noteq> []
                \<and> (\<forall>i \<in> set ids. getComponent s i \<noteq> None)"
  proof (cases "a_components args")
    case None
    with h show ?thesis by (simp add: handleAssemblePage_def)
  next
    case (Some ids)
    with h have "ids \<noteq> []" and "missingComponents s ids = []"
      by (auto simp: handleAssemblePage_def Let_def split: if_splits)
    with Some show ?thesis
      by (simp add: missingComponents_empty_iff)
  qed
qed

theorem assemble_errors_witness:
  "handleAssemblePage exampleServer
      (noArgs\<lparr>a_components := Some [''section-hero-1'', ''nonexistent-slug'']\<rparr>) =
     \<lparr>content = ErrorPayload ''Components not found'' (Some [''nonexistent-slug'']),
      isError = True\<rparr>
   \<and> handleAssemblePage exampleServer (noArgs\<lparr>a_components := Some []\<rparr>) =
     \<lparr>content = ErrorPayload ''No components provided'' None, isError = True\<rparr>"
proof -
  have "handleAssemblePage exampleServer
      (noArgs\<lparr>a_components := Some [''section-hero-1'', ''nonexistent-slug'']\<rparr>) =
     \<lparr>content = ErrorPayload ''Components not found''
        (Some (filter (\<lambda>i. getComponent exampleServer i = None)
                 [''section-hero-1'', ''nonexistent-slug''])),
      isError = True\<rparr>"
    by (rule assemble_errors [THEN conjunct2, THEN conjunct1, rule_format])
       (simp add: example_lookup)
  moreover have "handleAssemblePage exampleServer (noArgs\<lparr>a_components := Some []\<rparr>) =
     \<lparr>content = ErrorPayload ''No components provided'' None, isError = True\<rparr>"
    by (rule assemble_errors [THEN conjunct1, rule_format]) simp
  ultimately show ?thesis
    by (simp add: example_lookup)
qed

text \<open>
  Claim C7. For references \<open>a\<close> and \<open>b\<close> that resolve to the components \<open>ca\<close> and
  \<open>cb\<close>, assembling \<open>[a, b]\<close> with \<^verbatim>\<open>includeAssets = false\<close> returns the \<open>html\<close> of \<open>ca\<close>,
  two line feeds, and the \<open>html\<close> of \<open>cb\<close>. For every non-empty list of resolvable
  references the result is the \<open>html\<close> fields of the resolved components, one per
  reference, in the order of the list, joined by two line feeds: a repeated reference
  is repeated and nothing is reordered.
\<close>

theorem assemble_pair:
  assumes "getComponent s a = Some ca" and "getComponent s b = Some cb"
    and "a_components args = Some [a, b]" and "a_includeAssets args = Some False"
  shows "handleAssemblePage s args =
           \<lparr>content = HtmlText (html ca @ newline @ newline @ html cb), isError = False\<rparr>
       \<and> (\<forall>ids. ids \<noteq> [] \<and> (\<forall>i \<in> set ids. getComponent s i \<noteq> None) \<longrightarrow>
             handleAssemblePage s (args\<lparr>a_components := Some ids\<rparr>) =
               \<lparr>content = HtmlText (join (newline @ newline)
                   (map (\<lambda>i. case getComponent s i of Some c \<Rightarrow> html c | None \<Rightarrow> []) ids)),
                isError = False\<rparr>)"
proof (intro conjI allI impI)
  have "missingComponents s [a, b] = []"
    using assms by (simp add: missingComponents_def)
  moreover have "assembleParts s [a, b] = [html ca, html cb]"
    using assms by (simp add: assembleParts_def)
  ultimately show "handleAssemblePage s args =
           \<lparr>content = HtmlText (html ca @ newline @ newline @ html cb), isError = False\<rparr>"
    using assms by (simp add: handleAssemblePage_def)
next
  fix ids
  assume a: "ids \<noteq> [] \<and> (\<forall>i \<in> set ids. getComponent s i \<noteq> None)"
  then have "missingComponents s ids = []"
    by (simp add: missingComponents_empty_iff)
  with a assms(4) show "handleAssemblePage s (args\<lparr>a_components := Some ids\<rparr>) =
               \<lparr>content = HtmlText (join (newline @ newline)
                   (map (\<lambda>i. case getComponent s i of Some c \<Rightarrow> html c | None \<Rightarrow> []) ids)),
                isError = False\<rparr>"
    by (simp add: handleAssemblePage_def assembleParts_resolved)
qed

theorem assemble_pair_witness:
  "handleAssemblePage exampleServer
     (noArgs\<lparr>a_components := Some [''section-hero-1'', ''section-pricing-1''],
             a_includeAssets := Some False\<rparr>) =
     \<lparr>content = HtmlText (''<div>Hero</div>'' @ [CHR 0x0A, CHR 0x0A] @ ''<div>Pricing</div>''),
      isError = False\<rparr>
   \<and> handleAssemblePage exampleServer
     (noArgs\<lparr>a_components := Some [''u2'', ''section-hero-1'', ''u2''],
             a_includeAssets := Some False\<rparr>) =
     \<lparr>content = HtmlText (''<div>Pricing</div>'' @ [CHR 0x0A, CHR 0x0A] @ ''<div>Hero</div>''
                            @ [CHR 0x0A, CHR 0x0A] @ ''<div>Pricing</div>''),
      isError = False\<rparr>"
proof -
  have h: "html hero = ''<div>Hero</div>''" "html pricing = ''<div>Pricing</div>''"
    by (simp_all add: hero_def pricing_def mkComponent_def)
  let ?args = "noArgs\<lparr>a_components := Some [''section-hero-1'', ''section-pricing-1''],
                      a_includeAssets := Some False\<rparr>"
  have c: "a_components ?args = Some [''section-hero-1'', ''section-pricing-1'']"
    and i: "a_includeAssets ?args = Some False"
    by simp_all
  note t = assemble_pair [OF example_lookup(1) example_lookup(2) c i]
  have one: "handleAssemblePage exampleServer ?args =
      \<lparr>content = HtmlText (html hero @ newline @ newline @ html pricing), isError = False\<rparr>"
    by (rule t [THEN conjunct1])
  have two: "handleAssemblePage exampleServer
               (?args\<lparr>a_components := Some [''u2'', ''section-hero-1'', ''u2'']\<rparr>) =
      \<lparr>content = HtmlText (join (newline @ newline)
          (map (\<lambda>i. case getComponent exampleServer i of Some c \<Rightarrow> html c | None \<Rightarrow> [])
             [''u2'', ''section-hero-1'', ''u2''])),
       isError = False\<rparr>"
    by (rule t [THEN conjunct2, rule_format]) (simp add: example_lookup)
  from one two show ?thesis
    by (simp add: example_lookup h newline_def noArgs_def)
qed

section \<open>Category counts\<close>

lemma fold_countComponent:
  "fold countComponent cs Map.empty k =
     (if \<exists>c \<in> set cs. is_published c \<and> category c = k
      then Some \<lparr>count = length (filter (\<lambda>c. is_published c \<and> category c = k) cs),
                 freeCount = length (filter (\<lambda>c. is_published c \<and> category c = k \<and> is_free c) cs)\<rparr>
      else None)"
proof (induction cs rule: rev_induct)
  case Nil
  then show ?case by simp
next
  case (snoc x xs)
  show ?case
  proof (cases "is_published x \<and> category x = k")
    case True
    with snoc show ?thesis
      by (auto simp: countComponent_def Let_def filter_empty_conv)
  next
    case False
    with snoc show ?thesis
      by (auto simp: countComponent_def Let_def)
  qed
qed

lemma categoryStats_count:
  "(case categoryStats s k of None \<Rightarrow> 0 | Some st \<Rightarrow> count st) =
     length (filter (\<lambda>c. is_published c \<and> category c = k) (components (catalog s)))"
  by (auto simp: categoryStats_def fold_countComponent filter_empty_conv)

lemma categoryStats_freeCount:
  "(case categoryStats s k of None \<Rightarrow> 0 | Some st \<Rightarrow> freeCount st) =
     length (filter (\<lambda>c. is_published c \<and> category c = k \<and> is_free c) (components (catalog s)))"
  by (auto simp: categoryStats_def fold_countComponent filter_empty_conv)

text \<open>
  Claim C8. \<open>listCategories\<close> has one entry for each published category of the catalog,
  in catalog order, and none for an unpublished category. The component count of an
  entry is the number of published components whose \<open>category\<close> field is the slug of
  the category, and its free count is the number of those that are free; both are 0
  when no published component has that category.
\<close>

theorem listCategories_counts:
  "listCategories s =
     map (\<lambda>cat.
            \<lparr>st_slug = cat_slug cat, st_name = cat_name cat, st_icon = cat_icon cat,
             st_componentCount =
               length (filter (\<lambda>c. is_published c \<and> category c = cat_slug cat)
                         (components (catalog s))),
             st_freeCount =
               length (filter (\<lambda>c. is_published c \<and> category c = cat_slug cat \<and> is_free c)
                         (components (catalog s))),
             st_subcategories = map (\<lambda>item. (sub_slug item, sub_name item)) (cat_items cat)\<rparr>)
       (filter cat_is_published (categories (catalog s)))
   \<and> handleListCategories s args =
       \<lparr>content = CategoriesPayload (listCategories s), isError = False\<rparr>"
  by (simp add: listCategories_def formatCategory_def categoryStats_count
      categoryStats_freeCount handleListCategories_def)

theorem listCategories_counts_witness:
  "listCategories exampleServer =
     [\<lparr>st_slug = ''sections'', st_name = ''sections'', st_icon = None,
       st_componentCount = 2, st_freeCount = 1, st_subcategories = []\<rparr>,
      \<lparr>st_slug = ''forms'', st_name = ''forms'', st_icon = None,
       st_componentCount = 0, st_freeCount = 0, st_subcategories = []\<rparr>]"
  using listCategories_counts [of exampleServer "Some noArgs"]
  by (simp add: exampleCatalog_def mkCategory_def hero_def pricing_def login_def
      mkComponent_def)

section \<open>Dependencies\<close>

lemma resolveSlugs_concat:
  "resolveSlugs s xs =
     concat (map (\<lambda>sl. case componentsBySlug s sl of Some d \<Rightarrow> [d] | None \<Rightarrow> []) xs)"
  unfolding resolveSlugs_def by (induction xs) (auto split: option.splits)

lemma resolveSlugs_resolved:
  "d \<in> set (resolveSlugs s xs) \<Longrightarrow> \<exists>sl \<in> set xs. componentsBySlug s sl = Some d"
  unfolding resolveSlugs_concat by (auto split: option.splits)

text \<open>
  Claim C9. For an id or slug that resolves to a component \<open>c\<close>, the direction
  \<^verbatim>\<open>dependencies\<close> returns (never an error) the summaries of the components that the
  slugs of \<open>dependencies c\<close> resolve to in the slug index, in the order of that list,
  with the slugs that do not resolve left out; every component summarised is the entry
  of the slug index for some slug of the list. The direction \<^verbatim>\<open>dependents\<close> does the same
  with \<open>used_by c\<close>.
\<close>

theorem dependencies_resolved:
  assumes "getComponent s i = Some c" and "a_id args = Some i"
  shows "(a_direction args = Some ''dependencies'' \<longrightarrow>
            handleGetDependencies s args =
              \<lparr>content = DependenciesPayload
                 \<lparr>r_component = \<lparr>i_id = cid c, i_slug = slug c, i_name = name c\<rparr>,
                  r_dependencies =
                    Some (map formatComponentSummary (resolveSlugs s (dependencies c))),
                  r_dependents = None\<rparr>,
               isError = False\<rparr>)
       \<and> (a_direction args = Some ''dependents'' \<longrightarrow>
            handleGetDependencies s args =
              \<lparr>content = DependenciesPayload
                 \<lparr>r_component = \<lparr>i_id = cid c, i_slug = slug c, i_name = name c\<rparr>,
                  r_dependencies = None,
                  r_dependents =
                    Some (map formatComponentSummary (resolveSlugs s (used_by c)))\<rparr>,
               isError = False\<rparr>)
       \<and> (\<forall>xs. resolveSlugs s xs =
              concat (map (\<lambda>sl. case componentsBySlug s sl of Some d \<Rightarrow> [d] | None \<Rightarrow> []) xs))
       \<and> (\<forall>xs. \<forall>d \<in> set (resolveSlugs s xs). \<exists>sl \<in> set xs. componentsBySlug s sl = Some d)"
proof (intro conjI allI impI ballI)
  assume "a_direction args = Some ''dependencies''"
  with assms show "handleGetDependencies s args =
              \<lparr>content = DependenciesPayload
                 \<lparr>r_component = \<lparr>i_id = cid c, i_slug = slug c, i_name = name c\<rparr>,
                  r_dependencies =
                    Some (map formatComponentSummary (resolveSlugs s (dependencies c))),
                  r_dependents = None\<rparr>,
               isError = False\<rparr>"
    by (simp add: handleGetDependencies_def getComponentArg_def)
next
  assume "a_direction args = Some ''dependents''"
  with assms show "handleGetDependencies s args =
              \<lparr>content = DependenciesPayload
                 \<lparr>r_component = \<lparr>i_id = cid c, i_slug = slug c, i_name = name c\<rparr>,
                  r_dependencies = None,
                  r_dependents =
                    Some (map formatComponentSummary (resolveSlugs s (used_by c)))\<rparr>,
               isError = False\<rparr>"
    by (simp add: handleGetDependencies_def getComponentArg_def)
next
  fix xs
  show "resolveSlugs s xs =
              concat (map (\<lambda>sl. case componentsBySlug s sl of Some d \<Rightarrow> [d] | None \<Rightarrow> []) xs)"
    by (rule resolveSlugs_concat)
next
  fix xs d
  assume "d \<in> set (resolveSlugs s xs)"
  then show "\<exists>sl \<in> set xs. componentsBySlug s sl = Some d"
    by (rule resolveSlugs_resolved)
qed

theorem dependencies_resolved_witness:
  "dependencies pricing = [''section-hero-1'', ''ghost'']
   \<and> componentsBySlug exampleServer ''ghost'' = None
   \<and> handleGetDependencies exampleServer
       (noArgs\<lparr>a_id := Some ''section-pricing-1'', a_direction := Some ''dependencies''\<rparr>) =
       \<lparr>content = DependenciesPayload
          \<lparr>r_component = \<lparr>i_id = ''u2'', i_slug = ''section-pricing-1'',
                           i_name = ''section-pricing-1''\<rparr>,
           r_dependencies = Some [formatComponentSummary hero],
           r_dependents = None\<rparr>,
        isError = False\<rparr>"
proof -
  let ?args = "noArgs\<lparr>a_id := Some ''section-pricing-1'',
                      a_direction := Some ''dependencies''\<rparr>"
  have i: "a_id ?args = Some ''section-pricing-1''"
    and d: "a_direction ?args = Some ''dependencies''"
    by simp_all
  have deps: "dependencies pricing = [''section-hero-1'', ''ghost'']"
    and ident: "cid pricing = ''u2''" "slug pricing = ''section-pricing-1''"
      "name pricing = ''section-pricing-1''"
    by (simp_all add: pricing_def mkComponent_def)
  note t = dependencies_resolved [OF example_lookup(2) i]
  have "handleGetDependencies exampleServer ?args =
      \<lparr>content = DependenciesPayload
         \<lparr>r_component = \<lparr>i_id = cid pricing, i_slug = slug pricing, i_name = name pricing\<rparr>,
          r_dependencies =
            Some (map formatComponentSummary (resolveSlugs exampleServer (dependencies pricing))),
          r_dependents = None\<rparr>,
       isError = False\<rparr>"
    by (rule t [THEN conjunct1, rule_format]) (rule d)
  moreover have "resolveSlugs exampleServer (dependencies pricing) = [hero]"
    by (simp add: t [THEN conjunct2, THEN conjunct2, THEN conjunct1, rule_format]
        deps example_bySlug)
  ultimately show ?thesis
    by (simp add: deps ident example_bySlug)
qed

section \<open>Errors: payloads and exceptions\<close>






lemma splitUri_nonempty: "splitUri acc uri \<noteq> []"
  by (induction acc uri rule: splitUri.induct) (simp del: take_Cons_numeral drop_Cons_numeral)+









lemma handleComponentResource_throws:
  "getComponentArg s ido = None \<Longrightarrow>
     handleComponentResource s ido = Inl (Error (''Component not found: '' @ showArg ido))"
  by (simp add: handleComponentResource_def)

















end
